theory Spec2Isabelle
  imports Complex_Main "HOL-Library.AList" "HOL-Library.Word"
begin

section \<open>JavaScript strings\<close>

text \<open>
  A JavaScript string is modelled as a \<^typ>\<open>string\<close>: the list of its code units, here
  restricted to the 8-bit range. The functions below are the \<open>String.prototype\<close> methods the
  sources call, with the argument shapes the sources use (string patterns, literal regular
  expressions with the \<open>g\<close> flag and an empty replacement).
\<close>

text \<open>
  \<open>toLowerCase\<close> on code units below 256: the letters \<open>A\<close> to \<open>Z\<close> and the Latin-1
  capitals \<open>0xC0\<close> to \<open>0xDE\<close> (without the multiplication sign \<open>0xD7\<close>) move up by 32.
\<close>

definition upper_chars :: "char list" where
  "upper_chars = ''ABCDEFGHIJKLMNOPQRSTUVWXYZ'' @
     [CHR 0xC0, CHR 0xC1, CHR 0xC2, CHR 0xC3, CHR 0xC4, CHR 0xC5, CHR 0xC6, CHR 0xC7,
      CHR 0xC8, CHR 0xC9, CHR 0xCA, CHR 0xCB, CHR 0xCC, CHR 0xCD, CHR 0xCE, CHR 0xCF,
      CHR 0xD0, CHR 0xD1, CHR 0xD2, CHR 0xD3, CHR 0xD4, CHR 0xD5, CHR 0xD6,
      CHR 0xD8, CHR 0xD9, CHR 0xDA, CHR 0xDB, CHR 0xDC, CHR 0xDD, CHR 0xDE]"

definition lower_chars :: "char list" where
  "lower_chars = ''abcdefghijklmnopqrstuvwxyz'' @
     [CHR 0xE0, CHR 0xE1, CHR 0xE2, CHR 0xE3, CHR 0xE4, CHR 0xE5, CHR 0xE6, CHR 0xE7,
      CHR 0xE8, CHR 0xE9, CHR 0xEA, CHR 0xEB, CHR 0xEC, CHR 0xED, CHR 0xEE, CHR 0xEF,
      CHR 0xF0, CHR 0xF1, CHR 0xF2, CHR 0xF3, CHR 0xF4, CHR 0xF5, CHR 0xF6,
      CHR 0xF8, CHR 0xF9, CHR 0xFA, CHR 0xFB, CHR 0xFC, CHR 0xFD, CHR 0xFE]"

definition lower_char :: "char \<Rightarrow> char" where
  "lower_char c = (case map_of (zip upper_chars lower_chars) c of Some d \<Rightarrow> d | None \<Rightarrow> c)"

definition toLowerCase :: "string \<Rightarrow> string" where
  "toLowerCase s = map lower_char s"

definition startsWith :: "string \<Rightarrow> string \<Rightarrow> bool" where
  "startsWith s p = (take (length p) s = p)"

definition endsWith :: "string \<Rightarrow> string \<Rightarrow> bool" where
  "endsWith s p = (length p \<le> length s \<and> drop (length s - length p) s = p)"

fun str_includes :: "string \<Rightarrow> string \<Rightarrow> bool" where
  "str_includes [] p = (p = [])"
| "str_includes (c # t) p = (startsWith (c # t) p \<or> str_includes t p)"

text \<open>\<open>s.replace(p, r)\<close> with a string pattern: only the leftmost occurrence is replaced.\<close>

fun replace_first :: "string \<Rightarrow> string \<Rightarrow> string \<Rightarrow> string" where
  "replace_first p r [] = (if p = [] then r else [])"
| "replace_first p r (c # t) =
     (if startsWith (c # t) p then r @ drop (length p) (c # t)
      else c # replace_first p r t)"

text \<open>
  \<open>s.replace(/p/g, "")\<close> for a literal, non-empty pattern: one pass from the left that drops
  every occurrence it meets and resumes right after it.
\<close>

fun remove_all :: "string \<Rightarrow> string \<Rightarrow> string" where
  "remove_all p [] = []"
| "remove_all p (c # t) =
     (if p \<noteq> [] \<and> startsWith (c # t) p then remove_all p (drop (length p) (c # t))
      else c # remove_all p t)"

text \<open>\<open>s.replaceAll("\\", "/")\<close>: the pattern is a single code unit.\<close>

definition slashes :: "string \<Rightarrow> string" where
  "slashes s = map (\<lambda>c. if c = CHR 0x5C then CHR ''/'' else c) s"

fun join :: "string \<Rightarrow> string list \<Rightarrow> string" where
  "join sep [] = []"
| "join sep [x] = x"
| "join sep (x # y # ys) = x @ sep @ join sep (y # ys)"

text \<open>\<open>s.split("/").pop()\<close>: what follows the last slash (all of \<open>s\<close> when there is none).\<close>

definition last_segment :: "string \<Rightarrow> string" where
  "last_segment s = rev (takeWhile (\<lambda>c. c \<noteq> CHR ''/'') (rev s))"

definition digit_char :: "nat \<Rightarrow> char" where
  "digit_char k = ''0123456789'' ! k"

text \<open>\<open>String(k)\<close> for an array index \<open>k\<close>, as a \<open>for ... in\<close> loop over an array yields it.\<close>

fun index_string :: "nat \<Rightarrow> string" where
  "index_string k =
     (if k < 10 then [digit_char k]
      else index_string (k div 10) @ [digit_char (k mod 10)])"


section \<open>The game database (downloader.ts)\<close>

text \<open>
  \<open>DetectableExecutable\<close> is \<open>{n, a?, s?: 1}\<close> and \<open>DetectableGame\<close> is \<open>{i, n, e?}\<close>. The
  one-letter fields are prefixed here (\<open>ex_n\<close> for \<open>exec.n\<close>, \<open>game_i\<close> for \<open>game.i\<close>); an absent
  optional field is \<open>None\<close>, and \<open>s === 1\<close> is the flag \<open>ex_s\<close>.
\<close>

record DetectableExecutable =
  ex_n :: string
  ex_a :: "string option"
  ex_s :: bool

record DetectableGame =
  game_i :: string
  game_n :: string
  game_e :: "DetectableExecutable list option"

record RawExecutable =
  raw_name :: string
  raw_os :: string
  raw_arguments :: "string option"

record RawGameData =
  raw_id :: string
  raw_game_name :: string
  raw_executables :: "RawExecutable list option"

text \<open>The body of the inner loop of \<open>transformObject\<close>: \<open>None\<close> is a \<open>continue\<close>.\<close>

definition transformExec :: "string \<Rightarrow> RawExecutable \<Rightarrow> DetectableExecutable option" where
  "transformExec currentPlatform exec =
     (if raw_name exec = [] then None
      else if raw_name exec = ''lms.exe'' then None
      else if raw_os exec \<noteq> [] \<and>
              \<not> (raw_os exec = currentPlatform) \<and>
              \<not> (currentPlatform = ''linux'' \<and> raw_os exec = ''win32'') then None
      else
        let name1 = (if endsWith (raw_name exec) ''project8.exe''
                     then replace_first ''project8.exe'' ''deadlock.exe'' (raw_name exec)
                     else raw_name exec);
            isStrict = startsWith name1 ''>'';
            name2 = (if isStrict then drop 1 name1 else name1)
        in Some \<lparr> ex_n = toLowerCase name2,
                  ex_a = (case raw_arguments exec of
                            None \<Rightarrow> None
                          | Some a \<Rightarrow> if a = [] then None else Some a),
                  ex_s = isStrict \<rparr>)"

definition transformGame :: "string \<Rightarrow> RawGameData \<Rightarrow> DetectableGame option" where
  "transformGame currentPlatform game =
     (if raw_id game = [] \<or> raw_game_name game = [] then None
      else case raw_executables game of
        None \<Rightarrow> None
      | Some execs \<Rightarrow>
          let processedExecs = List.map_filter (transformExec currentPlatform) execs
          in if processedExecs = [] then None
             else Some \<lparr> game_i = raw_id game, game_n = raw_game_name game,
                         game_e = Some processedExecs \<rparr>)"

definition transformObject :: "string \<Rightarrow> RawGameData list \<Rightarrow> DetectableGame list" where
  "transformObject currentPlatform all = List.map_filter (transformGame currentPlatform) all"


section \<open>The detection engine (process/index.ts)\<close>

subsection \<open>Matching one process against one game\<close>

definition stripBitness :: "string \<Rightarrow> string" where
  "stripBitness name =
     remove_all ''64'' (remove_all ''x64'' (remove_all ''_64'' (remove_all ''.x64'' name)))"

text \<open>The callback of \<open>game.e.some(...)\<close> in \<open>checkGameMatch\<close>, for one executable entry.\<close>

definition execMatch ::
  "DetectableExecutable \<Rightarrow> string \<Rightarrow> string \<Rightarrow> string \<Rightarrow> string \<Rightarrow> string list \<Rightarrow> bool" where
  "execMatch exec candidateKey filename fullPath cwdPath args =
     (let dbExecName = ex_n exec in
      if (case ex_a exec of
            None \<Rightarrow> False
          | Some a \<Rightarrow> a \<noteq> [] \<and> \<not> str_includes (toLowerCase (join '' '' args)) (toLowerCase a))
      then False
      else if ex_s exec then dbExecName = filename
      else if dbExecName = filename then True
      else if dbExecName = replace_first ''.exe'' '''' filename then True
      else if dbExecName = filename @ ''.exe'' then True
      else if str_includes (cwdPath @ ''/'' @ fullPath) (''/'' @ dbExecName) then True
      else if dbExecName = candidateKey then True
      else False)"

definition checkGameMatch ::
  "DetectableGame \<Rightarrow> string \<Rightarrow> string \<Rightarrow> string \<Rightarrow> string \<Rightarrow> string list \<Rightarrow> bool" where
  "checkGameMatch game candidateKey filename fullPath cwdPath args =
     (case game_e game of
        None \<Rightarrow> False
      | Some execs \<Rightarrow>
          list_ex (\<lambda>exec. execMatch exec candidateKey filename fullPath cwdPath args) execs)"

subsection \<open>Candidate keys\<close>

text \<open>\<open>Set.prototype.add\<close> on a set kept in insertion order.\<close>

definition set_add :: "string list \<Rightarrow> string \<Rightarrow> string list" where
  "set_add xs x = (if x \<in> set xs then xs else xs @ [x])"

definition noExt :: "string \<Rightarrow> string" where
  "noExt filename = replace_first ''.exe'' '''' filename"

definition candidates :: "string \<Rightarrow> string list" where
  "candidates filename =
     set_add (set_add (set_add (set_add [] filename) (noExt filename))
                (stripBitness filename)) (stripBitness (noExt filename))"

text \<open>
  The extension-less candidate as the specification words it: a single trailing \<open>.exe\<close>
  removed, anything else left alone.
\<close>

definition strip_trailing_exe :: "string \<Rightarrow> string" where
  "strip_trailing_exe filename =
     (if endsWith filename ''.exe'' then take (length filename - 4) filename else filename)"

subsection \<open>Engine state\<close>

text \<open>
  \<open>DetectedGame\<close> is \<open>{id, name, pid, timestamp}\<close> (fields prefixed \<open>dg_\<close>). A process
  entry is the tuple \<open>[pid, path, args, cwdPath]\<close> the scanner returns; the working directory
  may be missing. The three \<open>Record<string, ...>\<close> objects and the two \<open>Map\<close>s of
  \<open>ProcessServer\<close> are association lists in insertion order, read with \<^const>\<open>map_of\<close> and
  written with \<^const>\<open>AList.update\<close> (an existing key keeps its place, a new one goes
  last) and \<^const>\<open>AList.delete\<close>. A call of \<open>handlers.message({socketId}, msg)\<close> is
  recorded as a pair of the socket id and the message, in call order; the \<open>start\<close> field of
  the activity and the \<open>pid\<close> of a clearing message are read from a record and may be
  \<open>undefined\<close>, hence options. A record is read through its own properties only: game ids
  are taken not to name a member of \<open>Object.prototype\<close>. The listener behind
  \<open>handlers.message\<close> is taken to return.
\<close>

record DetectedGame =
  dg_id :: string
  dg_name :: string
  dg_pid :: int
  dg_timestamp :: int

type_synonym ProcessEntry = "int \<times> string \<times> string list \<times> string option"

datatype ActivityMessage =
    SetActivity string string "int option" int
  | ClearActivity "int option"

type_synonym HandlerCall = "string \<times> ActivityMessage"

record ProcessServer =
  timestamps :: "(string \<times> int) list"
  names :: "(string \<times> string) list"
  pids :: "(string \<times> int) list"
  cache :: "(string \<times> DetectedGame) list"
  detectionMap :: "(string \<times> DetectableGame list) list"
  isScanning :: bool
  lastScanTime :: int

text \<open>The index built by \<open>init\<close>: one entry of \<open>game\<close> per executable, under the last path
  segment of the lowercased executable name.\<close>

definition index_exec ::
  "DetectableGame \<Rightarrow> DetectableExecutable \<Rightarrow> (string \<times> DetectableGame list) list
     \<Rightarrow> (string \<times> DetectableGame list) list" where
  "index_exec game exec m =
     (let name = toLowerCase (ex_n exec);
          key = last_segment name;
          list = (case map_of m key of None \<Rightarrow> [] | Some l \<Rightarrow> l)
      in AList.update key (list @ [game]) m)"

definition index_game ::
  "DetectableGame \<Rightarrow> (string \<times> DetectableGame list) list \<Rightarrow> (string \<times> DetectableGame list) list" where
  "index_game game m =
     (case game_e game of None \<Rightarrow> m | Some execs \<Rightarrow> fold (index_exec game) execs m)"

definition build_index :: "DetectableGame list \<Rightarrow> (string \<times> DetectableGame list) list" where
  "build_index db = fold index_game db []"

definition isValidProcess :: "int \<Rightarrow> string \<Rightarrow> bool" where
  "isValidProcess pid path =
     (if pid = 1 then False
      else if length path < 1 then False
      else if startsWith path ''/proc'' then False
      else if startsWith path ''/usr/lib/'' then False
      else if str_includes path ''systemd'' then False
      else if startsWith path ''c:/windows'' then False
      else if str_includes path ''webhelper'' then False
      else if endsWith path ''/bin/dolphin'' then False
      else True)"

subsection \<open>The scan loop\<close>

text \<open>
  \<open>Date.now()\<close> is read from a clock \<open>time\<close>: its \<open>k\<close>-th reading is \<open>time k\<close>, and the
  counter \<open>tick\<close> of readings taken so far is threaded through the scan.
  \<open>timestamp_or_now\<close> is \<open>this.timestamps[id] || Date.now()\<close>: the clock is read only when the
  stored value is missing or zero.

  The loop over the processes changes the cache, the local map \<open>detectedGames\<close>, the local
  record \<open>cacheKeys\<close> and the clock counter; they form \<open>ScanLoop\<close>. On a cache hit the
  source mutates the cached object and stores the same object in \<open>detectedGames\<close>; the object
  is reachable from one cache key and from \<open>detectedGames\<close> under its own id only, where it
  is stored right after each mutation, so copying it into both maps gives the same contents.
\<close>

definition truthy_num :: "int option \<Rightarrow> bool" where
  "truthy_num v = (case v of None \<Rightarrow> False | Some x \<Rightarrow> x \<noteq> 0)"

definition timestamp_or_now ::
  "(nat \<Rightarrow> int) \<Rightarrow> (string \<times> int) list \<Rightarrow> string \<Rightarrow> nat \<Rightarrow> int \<times> nat" where
  "timestamp_or_now time ts gid tick =
     (case map_of ts gid of
        None \<Rightarrow> (time tick, Suc tick)
      | Some t \<Rightarrow> if t \<noteq> 0 then (t, tick) else (time tick, Suc tick))"

record ScanLoop =
  l_cache :: "(string \<times> DetectedGame) list"
  l_detected :: "(string \<times> DetectedGame) list"
  l_keys :: "string list"
  l_tick :: nat

definition match_game ::
  "(nat \<Rightarrow> int) \<Rightarrow> (string \<times> int) list \<Rightarrow> int \<Rightarrow> string \<Rightarrow> string \<Rightarrow> string \<Rightarrow> string
     \<Rightarrow> string \<Rightarrow> string list \<Rightarrow> DetectableGame \<Rightarrow> ScanLoop \<Rightarrow> ScanLoop" where
  "match_game time ts pid cacheKey candidate filename rawPath cwdPath args game L =
     (if checkGameMatch game candidate filename rawPath cwdPath args then
        let (t, k) = timestamp_or_now time ts (game_i game) (l_tick L);
            match = \<lparr> dg_id = game_i game, dg_name = game_n game, dg_pid = pid,
                      dg_timestamp = t \<rparr>
        in L\<lparr> l_detected := AList.update (game_i game) match (l_detected L),
               l_cache := AList.update cacheKey match (l_cache L),
               l_tick := k \<rparr>
      else L)"

definition scan_candidate ::
  "(nat \<Rightarrow> int) \<Rightarrow> (string \<times> int) list \<Rightarrow> (string \<times> DetectableGame list) list \<Rightarrow> int
     \<Rightarrow> string \<Rightarrow> string \<Rightarrow> string \<Rightarrow> string \<Rightarrow> string list \<Rightarrow> string \<Rightarrow> ScanLoop \<Rightarrow> ScanLoop" where
  "scan_candidate time ts dmap pid cacheKey filename rawPath cwdPath args candidate L =
     (case map_of dmap candidate of
        None \<Rightarrow> L
      | Some matches \<Rightarrow>
          fold (match_game time ts pid cacheKey candidate filename rawPath cwdPath args)
            matches L)"

definition cacheKeyOf :: "string \<Rightarrow> string list \<Rightarrow> string \<Rightarrow> string" where
  "cacheKeyOf rawPath args cwdPath = rawPath @ [CHR 0x00] @ join '','' args @ '' '' @ cwdPath"

fun scan_process ::
  "(nat \<Rightarrow> int) \<Rightarrow> (string \<times> int) list \<Rightarrow> (string \<times> DetectableGame list) list
     \<Rightarrow> ProcessEntry \<Rightarrow> ScanLoop \<Rightarrow> ScanLoop" where
  "scan_process time ts dmap (pid, path, args, cwd) L =
     (let rawPath = slashes (toLowerCase path);
          cwdPath = slashes (toLowerCase (case cwd of None \<Rightarrow> [] | Some c \<Rightarrow> c));
          cacheKey = cacheKeyOf rawPath args cwdPath;
          L1 = L\<lparr> l_keys := List.insert cacheKey (l_keys L) \<rparr>
      in (case map_of (l_cache L) cacheKey of
            Some cached \<Rightarrow>
              (let (t, k) = timestamp_or_now time ts (dg_id cached) (l_tick L);
                   cached' = cached\<lparr> dg_pid := pid, dg_timestamp := t \<rparr>
               in L1\<lparr> l_cache := AList.update cacheKey cached' (l_cache L),
                       l_detected := AList.update (dg_id cached) cached' (l_detected L),
                       l_tick := k \<rparr>)
          | None \<Rightarrow>
              (if \<not> isValidProcess pid rawPath then L1
               else
                 (let filename = last_segment rawPath in
                  if filename = [] then L1
                  else fold (scan_candidate time ts dmap pid cacheKey filename rawPath cwdPath
                               args)
                         (candidates filename) L1))))"

subsection \<open>State transitions and handler calls\<close>

text \<open>The body of the loop of \<open>handleScanResults\<close>, for one detected game.\<close>

definition handle_game ::
  "DetectedGame \<Rightarrow> ProcessServer \<times> HandlerCall list \<Rightarrow> ProcessServer \<times> HandlerCall list" where
  "handle_game g acc =
     (case acc of (srv, calls) \<Rightarrow>
        let gid = dg_id g;
            srv1 = srv\<lparr> names := AList.update gid (dg_name g) (names srv),
                         pids := AList.update gid (dg_pid g) (pids srv) \<rparr>;
            srv2 = (if \<not> truthy_num (map_of (timestamps srv1) gid)
                    then srv1\<lparr> timestamps := AList.update gid (dg_timestamp g) (timestamps srv1) \<rparr>
                    else srv1)
        in (srv2, calls @ [(gid, SetActivity gid (dg_name g) (map_of (timestamps srv2) gid)
                                   (dg_pid g))]))"

text \<open>
  \<open>Object.keys\<close> lists the keys that are array indices (canonical decimal numerals below
  \<open>2^32 - 1\<close>) in ascending numeric order, then the other keys in insertion order.
\<close>

definition digit_value :: "char \<Rightarrow> int" where
  "digit_value c = int (length (takeWhile (\<lambda>d. d \<noteq> c) ''0123456789''))"

definition dec_value :: "string \<Rightarrow> int" where
  "dec_value s = foldl (\<lambda>a c. 10 * a + digit_value c) 0 s"

definition is_array_index :: "string \<Rightarrow> bool" where
  "is_array_index s =
     (s \<noteq> [] \<and> list_all (\<lambda>c. c \<in> set ''0123456789'') s \<and>
      (s = ''0'' \<or> hd s \<noteq> CHR ''0'') \<and> dec_value s < 4294967295)"

definition object_keys :: "string list \<Rightarrow> string list" where
  "object_keys ks =
     sort_key dec_value (filter is_array_index ks) @ filter (\<lambda>k. \<not> is_array_index k) ks"

definition cleanup_game ::
  "string list \<Rightarrow> string \<Rightarrow> ProcessServer \<times> HandlerCall list \<Rightarrow> ProcessServer \<times> HandlerCall list" where
  "cleanup_game activeIds gid acc =
     (case acc of (srv, calls) \<Rightarrow>
        if gid \<in> set activeIds then (srv, calls)
        else
          let closingPid = map_of (pids srv) gid
          in (srv\<lparr> timestamps := AList.delete gid (timestamps srv),
                    names := AList.delete gid (names srv),
                    pids := AList.delete gid (pids srv) \<rparr>,
              calls @ [(gid, ClearActivity closingPid)]))"

definition cleanupLostGames ::
  "string list \<Rightarrow> ProcessServer \<times> HandlerCall list \<Rightarrow> ProcessServer \<times> HandlerCall list" where
  "cleanupLostGames activeIds acc =
     fold (cleanup_game activeIds) (object_keys (map fst (timestamps (fst acc)))) acc"

definition handleScanResults ::
  "DetectedGame list \<Rightarrow> ProcessServer \<Rightarrow> ProcessServer \<times> HandlerCall list" where
  "handleScanResults games srv =
     cleanupLostGames (map dg_id games) (fold handle_game games (srv, []))"

subsection \<open>Cache maintenance and the scan\<close>

text \<open>
  The block guarded by \<open>globalCacheKeys.length > fetchedCacheKeys.length * 2\<close>. Both loops
  are \<open>for ... in\<close> loops over arrays, so \<open>key\<close> ranges over the index strings \<open>"0"\<close>,
  \<open>"1"\<close>, ...: the first loop deletes the elements of the local array \<open>fetchedCacheKeys\<close>,
  which nothing reads afterwards; the second calls \<open>this.cache.delete\<close> on every index
  string of \<open>globalCacheKeys\<close>.
\<close>

definition cache_gc :: "string list \<Rightarrow> ProcessServer \<Rightarrow> ProcessServer" where
  "cache_gc fetchedCacheKeys srv =
     (let globalCacheKeys = map fst (cache srv) in
      if length globalCacheKeys > length fetchedCacheKeys * 2
      then srv\<lparr> cache := fold (\<lambda>k c. AList.delete (index_string k) c)
                              [0 ..< length globalCacheKeys] (cache srv) \<rparr>
      else srv)"

text \<open>
  \<open>scan\<close> takes the result of \<open>getProcesses()\<close> (\<open>None\<close> when it throws: the error is
  logged and only the \<open>finally\<close> block runs). The outcome holds the new state, the handler
  calls made, the values of \<open>detectedGames\<close> handed to \<open>handleScanResults\<close>, and the clock
  counter.
\<close>

definition scan_loop ::
  "(nat \<Rightarrow> int) \<Rightarrow> ProcessEntry list \<Rightarrow> ProcessServer \<Rightarrow> nat \<Rightarrow> ScanLoop" where
  "scan_loop time processes srv tick =
     fold (scan_process time (timestamps srv) (detectionMap srv)) processes
       \<lparr> l_cache = cache srv, l_detected = [], l_keys = [], l_tick = Suc tick \<rparr>"

record ScanOutcome =
  out_server :: ProcessServer
  out_calls :: "HandlerCall list"
  out_detected :: "DetectedGame list"
  out_tick :: nat

definition scan ::
  "(nat \<Rightarrow> int) \<Rightarrow> ProcessEntry list option \<Rightarrow> ProcessServer \<Rightarrow> nat \<Rightarrow> ScanOutcome" where
  "scan time getProcesses srv tick =
     (if isScanning srv
      then \<lparr> out_server = srv, out_calls = [], out_detected = [], out_tick = tick \<rparr>
      else
        let srv0 = srv\<lparr> isScanning := True, lastScanTime := time tick \<rparr> in
        case getProcesses of
          None \<Rightarrow> \<lparr> out_server = srv0\<lparr> isScanning := False \<rparr>, out_calls = [],
                     out_detected = [], out_tick = Suc tick \<rparr>
        | Some processes \<Rightarrow>
            let L = scan_loop time processes srv0 tick;
                games = map snd (l_detected L);
                (srv1, calls) = handleScanResults games (srv0\<lparr> cache := l_cache L \<rparr>);
                srv2 = cache_gc (l_keys L) srv1
            in \<lparr> out_server = srv2\<lparr> isScanning := False \<rparr>, out_calls = calls,
                 out_detected = games, out_tick = l_tick L \<rparr>)"

subsection \<open>Invariants of a scan\<close>




definition clear_call :: "(string \<times> int) list \<Rightarrow> string \<Rightarrow> HandlerCall" where
  "clear_call ps gid = (gid, ClearActivity (map_of ps gid))"


subsection \<open>Scenarios\<close>

text \<open>
  A clock that starts at 1000, the database of the specification's scenario, a database in
  which two games list the same executable, and scans of the process
  \<open>(42, "C:/Games/game.exe", [], "C:/Games")\<close> from a fresh engine.
\<close>

definition clock :: "nat \<Rightarrow> int" where
  "clock k = 1000 + int k"


definition new_server :: "DetectableGame list \<Rightarrow> ProcessServer" where
  "new_server db =
     \<lparr> timestamps = [], names = [], pids = [], cache = [], detectionMap = build_index db,
       isScanning = False, lastScanTime = 0 \<rparr>"

definition game_process :: ProcessEntry where
  "game_process = (42, ''C:/Games/game.exe'', [], Some ''C:/Games'')"



definition one_game_db :: "DetectableGame list" where
  "one_game_db =
     [\<lparr> game_i = ''123'', game_n = ''Example Game'',
        game_e = Some [\<lparr> ex_n = ''game.exe'', ex_a = None, ex_s = False \<rparr>] \<rparr>]"

definition detect_scan :: ScanOutcome where
  "detect_scan = scan clock (Some [game_process]) (new_server one_game_db) 0"


definition lost_scan :: ScanOutcome where
  "lost_scan = scan clock (Some []) (out_server detect_scan) (out_tick detect_scan)"

section \<open>The native transport (IPC server)\<close>

subsection \<open>Frames\<close>

text \<open>
  A \<open>Buffer\<close> is a list of bytes. \<open>JSON.parse(buffer.toString("utf8"))\<close> and the UTF-8 bytes
  of \<open>JSON.stringify(data)\<close> are parameters \<open>parse\<close> (\<open>None\<close> when it throws) and
  \<open>stringify\<close> of the functions below; a decoded payload is a \<open>jsval\<close>.
\<close>

type_synonym byte = "8 word"

datatype jsval =
    JNull
  | JBool bool
  | JNum real
  | JStr string
  | JArr "jsval list"
  | JObj "(string \<times> jsval) list"

definition readInt32LE :: "byte list \<Rightarrow> nat \<Rightarrow> int" where
  "readInt32LE buf off =
     (let u = uint (buf ! off) + 256 * uint (buf ! (off + 1)) + 65536 * uint (buf ! (off + 2))
              + 16777216 * uint (buf ! (off + 3))
      in if u \<ge> 2147483648 then u - 4294967296 else u)"

definition writeInt32LE :: "int \<Rightarrow> byte list" where
  "writeInt32LE v =
     [word_of_int v, word_of_int (v div 256), word_of_int (v div 65536),
      word_of_int (v div 16777216)]"

definition HANDSHAKE :: int where "HANDSHAKE = 0"
definition FRAME :: int where "FRAME = 1"
definition CLOSE :: int where "CLOSE = 2"
definition PING :: int where "PING = 3"
definition PONG :: int where "PONG = 4"

definition Types_values :: "int list" where
  "Types_values = [HANDSHAKE, FRAME, CLOSE, PING, PONG]"

definition MAX_IPC_PAYLOAD :: int where
  "MAX_IPC_PAYLOAD = 5 * 1024 * 1024"

definition encode :: "(jsval \<Rightarrow> byte list) \<Rightarrow> int \<Rightarrow> jsval \<Rightarrow> byte list" where
  "encode stringify type data =
     (let stringData = stringify data;
          dataSize = int (length stringData)
      in writeInt32LE type @ writeInt32LE dataSize @ stringData)"

text \<open>
  \<open>socket.read(k)\<close> on the readable buffer: the first \<open>k\<close> bytes and what is left, or
  \<open>null\<close> when fewer than \<open>k\<close> bytes are buffered. \<open>read(0)\<close> consumes nothing and returns
  \<open>null\<close> (Node.js documents that \<open>stream.read(0)\<close> always returns \<open>null\<close>).
\<close>

definition sock_read :: "nat \<Rightarrow> byte list \<Rightarrow> (byte list \<times> byte list) option" where
  "sock_read k buf = (if k = 0 \<or> length buf < k then None else Some (take k buf, drop k buf))"

subsection \<open>The frame reader\<close>

text \<open>
  The socket as \<open>processSocketReadable\<close> and the handshake listener see it: the readable
  buffer, the events emitted with \<open>socket.emit\<close> (in order), the buffers handed to
  \<open>socket.write\<close> or \<open>socket.end\<close>, whether \<open>end\<close> and \<open>destroy\<close> were called, the
  \<open>clientId\<close> property, the closure variable \<open>handshook\<close> of \<open>onConnection\<close>, and whether the
  \<open>request\<close> listener is registered. Listeners are modelled on their own, below; the reader
  records the event it emits. The \<open>catch\<close> block around the reader runs only when a
  listener throws and has no counterpart here.
\<close>

datatype ipc_event = Ping jsval | Pong jsval | Handshake jsval | Request jsval

record IPCSocket =
  rbuf :: "byte list"
  emitted :: "ipc_event list"
  written :: "byte list list"
  ended :: bool
  destroyed :: bool
  clientId :: "string option"
  handshook :: bool
  request_listener :: bool

text \<open>
  One pass of the loop body up to the type check: \<open>Wait\<close> is a return that leaves the buffer
  as it was (nothing read, or the header put back with \<open>unshift\<close>), \<open>Destroy\<close> a return after
  \<open>socket.destroy()\<close> with the given bytes left, \<open>Frame\<close> a frame of a known type with its
  body and the bytes after it.
\<close>

datatype frame_step = Wait | Destroy "byte list" | Frame int "byte list" "byte list"

definition next_frame :: "byte list \<Rightarrow> frame_step" where
  "next_frame buf =
     (if length buf < 8 then Wait
      else case sock_read 8 buf of
        None \<Rightarrow> Wait
      | Some (header, rest) \<Rightarrow>
          (let type = readInt32LE header 0;
               dataSize = readInt32LE header 4
           in if dataSize < 0 \<or> dataSize > MAX_IPC_PAYLOAD then Destroy rest
              else if int (length rest) < dataSize then Wait
              else (case sock_read (nat dataSize) rest of
                      None \<Rightarrow> Wait
                    | Some (bodyBuffer, rest') \<Rightarrow>
                        if type \<notin> set Types_values then Destroy rest'
                        else Frame type bodyBuffer rest')))"

function processSocketReadable ::
  "(byte list \<Rightarrow> jsval option) \<Rightarrow> (jsval \<Rightarrow> byte list) \<Rightarrow> IPCSocket \<Rightarrow> IPCSocket" where
  "processSocketReadable parse stringify s =
     (case next_frame (rbuf s) of
        Wait \<Rightarrow> s
      | Destroy rest \<Rightarrow> s\<lparr> rbuf := rest, destroyed := True \<rparr>
      | Frame type bodyBuffer rest \<Rightarrow>
          (case parse bodyBuffer of
             None \<Rightarrow> processSocketReadable parse stringify (s\<lparr> rbuf := rest \<rparr>)
           | Some data \<Rightarrow>
               if type = PING then
                 processSocketReadable parse stringify
                   (s\<lparr> rbuf := rest, emitted := emitted s @ [Ping data],
                       written := written s @ [encode stringify PONG data] \<rparr>)
               else if type = PONG then
                 processSocketReadable parse stringify
                   (s\<lparr> rbuf := rest, emitted := emitted s @ [Pong data] \<rparr>)
               else if type = HANDSHAKE then
                 processSocketReadable parse stringify
                   (s\<lparr> rbuf := rest, emitted := emitted s @ [Handshake data] \<rparr>)
               else if type = FRAME then
                 processSocketReadable parse stringify
                   (s\<lparr> rbuf := rest, emitted := emitted s @ [Request data] \<rparr>)
               else if type = CLOSE then s\<lparr> rbuf := rest, ended := True, destroyed := True \<rparr>
               else processSocketReadable parse stringify (s\<lparr> rbuf := rest \<rparr>)))"
  by pat_completeness auto
termination
  by (relation "measure (\<lambda>(parse, stringify, s). length (rbuf s))")
     (auto simp: next_frame_def sock_read_def Let_def split: if_splits option.splits prod.splits)

text \<open>
  The \<open>readable\<close> listener after \<open>chunk\<close> has arrived. A destroyed socket has closed its
  handle: it receives nothing more.
\<close>

definition on_readable ::
  "(byte list \<Rightarrow> jsval option) \<Rightarrow> (jsval \<Rightarrow> byte list) \<Rightarrow> byte list \<Rightarrow> IPCSocket \<Rightarrow> IPCSocket" where
  "on_readable parse stringify chunk s =
     (if destroyed s then s
      else processSocketReadable parse stringify (s\<lparr> rbuf := rbuf s @ chunk \<rparr>))"

definition new_socket :: IPCSocket where
  "new_socket = \<lparr> rbuf = [], emitted = [], written = [], ended = False, destroyed = False,
     clientId = None, handshook = False, request_listener = False \<rparr>"

text \<open>
  A frame is valid when its own header names one of the five types and a payload length
  between 0 and the cap, and the bytes after the header are exactly that many.
\<close>

definition frame_type :: "byte list \<Rightarrow> int" where
  "frame_type fr = readInt32LE fr 0"

definition frame_size :: "byte list \<Rightarrow> int" where
  "frame_size fr = readInt32LE fr 4"

definition valid_frame :: "byte list \<Rightarrow> bool" where
  "valid_frame fr =
     (8 \<le> length fr \<and> frame_type fr \<in> set Types_values \<and>
      0 \<le> frame_size fr \<and> frame_size fr \<le> MAX_IPC_PAYLOAD \<and>
      int (length fr) = 8 + frame_size fr)"



subsection \<open>The handshake listener and onMessage\<close>

text \<open>
  \<open>parseInt(s, 10)\<close>: leading white space is skipped, a sign is read, then the longest run
  of decimal digits; \<open>None\<close> is \<open>NaN\<close>. The result is only compared with 1, so the exact
  integer stands for the Number.
\<close>

definition js_whitespace :: "char \<Rightarrow> bool" where
  "js_whitespace c =
     (c \<in> set [CHR 0x09, CHR 0x0A, CHR 0x0B, CHR 0x0C, CHR 0x0D, CHR 0x20, CHR 0xA0])"

definition is_digit :: "char \<Rightarrow> bool" where
  "is_digit c = (c \<in> set ''0123456789'')"

definition parseInt10 :: "string \<Rightarrow> int option" where
  "parseInt10 inputString =
     (let S = dropWhile js_whitespace inputString;
          sign = (if S \<noteq> [] \<and> hd S = CHR ''-'' then - 1 else 1 :: int);
          S1 = (if S \<noteq> [] \<and> (hd S = CHR ''+'' \<or> hd S = CHR ''-'') then tl S else S);
          Z = takeWhile is_digit S1
      in if Z = [] then None else Some (sign * dec_value Z))"

definition CLOSE_NORMAL :: int where "CLOSE_NORMAL = 1000"
definition CLOSE_UNSUPPORTED :: int where "CLOSE_UNSUPPORTED = 1003"
definition INVALID_CLIENTID :: int where "INVALID_CLIENTID = 4000"
definition INVALID_VERSION :: int where "INVALID_VERSION = 4004"

text \<open>
  A call of \<open>handlers.connection\<close>, \<open>handlers.message\<close> or \<open>handlers.close\<close> is recorded
  as an \<open>upcall\<close>; the connection call carries the \<open>clientId\<close> of the socket it is given.
  The parameter of the handshake listener has its declared type
  \<open>{v?: string; client_id?: string}\<close>. \<open>socket_close\<close> is the \<open>socket.close\<close> the listener
  installs: a \<open>CLOSE\<close> frame with \<open>{code, message}\<close> passed to \<open>socket.end\<close>, then
  \<open>socket.destroy()\<close>. The listener is registered with \<open>once\<close> and guarded by
  \<open>handshook\<close>; the flag stands for both.
\<close>

datatype 'c upcall = ConnectionCall 'c | MessageCall jsval | CloseCall

record HandshakeParams =
  hs_v :: "string option"
  hs_client_id :: "string option"

definition close_payload :: "int \<Rightarrow> string \<Rightarrow> jsval" where
  "close_payload code message = JObj [(''code'', JNum (of_int code)), (''message'', JStr message)]"

definition socket_close :: "(jsval \<Rightarrow> byte list) \<Rightarrow> int \<Rightarrow> string \<Rightarrow> IPCSocket \<Rightarrow> IPCSocket" where
  "socket_close stringify code message s =
     s\<lparr> written := written s @ [encode stringify CLOSE (close_payload code message)],
        ended := True, destroyed := True \<rparr>"

definition onHandshake ::
  "(jsval \<Rightarrow> byte list) \<Rightarrow> HandshakeParams \<Rightarrow> IPCSocket \<Rightarrow> IPCSocket \<times> string upcall list" where
  "onHandshake stringify params s =
     (if handshook s then (s, [])
      else
        let s1 = s\<lparr> handshook := True \<rparr>;
            ver = parseInt10 (case hs_v params of None \<Rightarrow> ''1'' | Some v \<Rightarrow> v);
            cid = (case hs_client_id params of None \<Rightarrow> '''' | Some c \<Rightarrow> c)
        in if ver \<noteq> Some 1 then (socket_close stringify INVALID_VERSION '''' s1, [])
           else if cid = '''' then (socket_close stringify INVALID_CLIENTID '''' s1, [])
           else (s1\<lparr> request_listener := True, clientId := Some cid \<rparr>, [ConnectionCall cid]))"

text \<open>
  \<open>msg.args\<close> and \<open>msg.cmd\<close> on a decoded payload: reading a property of \<open>null\<close> throws a
  \<open>TypeError\<close>; on any other value a key that is no own property (and, as these two, no
  property of a built-in prototype) reads as \<open>undefined\<close>, here \<open>None\<close>. \<open>truthy\<close> is
  JavaScript's conversion to boolean. The result of \<open>onMessage\<close> is the error thrown, or the
  lines logged and the handler calls made.
\<close>

datatype js_error = TypeError

fun field :: "jsval \<Rightarrow> string \<Rightarrow> jsval option" where
  "field (JObj fs) k = map_of fs k"
| "field v k = None"

fun truthy :: "jsval option \<Rightarrow> bool" where
  "truthy None = False"
| "truthy (Some JNull) = False"
| "truthy (Some (JBool b)) = b"
| "truthy (Some (JNum x)) = (x \<noteq> 0)"
| "truthy (Some (JStr s)) = (s \<noteq> [])"
| "truthy (Some (JArr xs)) = True"
| "truthy (Some (JObj fs)) = True"

definition IPC_onMessage :: "jsval \<Rightarrow> js_error + (string list \<times> string upcall list)" where
  "IPC_onMessage msg =
     (if msg = JNull then Inl TypeError
      else if \<not> truthy (field msg ''args'') \<or> \<not> truthy (field msg ''cmd'')
      then Inr ([''Invaild payload!''], [])
      else Inr ([], [MessageCall msg]))"

definition upcalls_of :: "js_error + (string list \<times> 'c upcall list) \<Rightarrow> 'c upcall list" where
  "upcalls_of r = (case r of Inl e \<Rightarrow> [] | Inr (logs, calls) \<Rightarrow> calls)"

section \<open>The WebSocket transport\<close>

text \<open>
  \<open>querystring.parse\<close> yields for each key a string, or an array of strings when the key is
  repeated; \<open>qstring\<close> is the conversion to string that \<open>parseInt\<close> applies.
\<close>

datatype qval = QStr string | QArr "string list"

fun qstring :: "qval \<Rightarrow> string" where
  "qstring (QStr s) = s"
| "qstring (QArr xs) = join '','' xs"

record WSParams =
  ws_v :: "qval option"
  ws_encoding :: "qval option"
  ws_client_id :: "qval option"

record RPCWebSocket =
  ws_clientId :: "qval option"
  ws_enc :: "qval option"
  ws_closed :: bool
  ws_message_listener :: bool

definition WS_onConnection :: "WSParams \<Rightarrow> RPCWebSocket \<Rightarrow> RPCWebSocket \<times> qval upcall list" where
  "WS_onConnection params socket =
     (let ver = parseInt10 (case ws_v params of None \<Rightarrow> ''1'' | Some q \<Rightarrow> qstring q);
          encoding = (case ws_encoding params of None \<Rightarrow> QStr ''json'' | Some q \<Rightarrow> q);
          cid = (case ws_client_id params of None \<Rightarrow> QStr '''' | Some q \<Rightarrow> q)
      in if encoding \<noteq> QStr ''json'' then (socket\<lparr> ws_closed := True \<rparr>, [])
         else if ver \<noteq> Some 1 then (socket\<lparr> ws_closed := True \<rparr>, [])
         else (socket\<lparr> ws_clientId := Some cid, ws_enc := Some encoding,
                       ws_message_listener := True \<rparr>, [ConnectionCall cid]))"

definition WS_onMessage :: "jsval \<Rightarrow> qval upcall list" where
  "WS_onMessage msg = [MessageCall msg]"

subsection \<open>Scenarios\<close>

text \<open>A parser and a serialiser that know the empty object, fresh sockets, and three frames.\<close>

definition toy_parse :: "byte list \<Rightarrow> jsval option" where
  "toy_parse bs = (if bs = [0x7B, 0x7D] then Some (JObj []) else None)"

definition toy_stringify :: "jsval \<Rightarrow> byte list" where
  "toy_stringify v = [0x7B, 0x7D]"

definition new_websocket :: RPCWebSocket where
  "new_websocket = \<lparr> ws_clientId = None, ws_enc = None, ws_closed = False,
     ws_message_listener = False \<rparr>"

definition ping_frame :: "byte list" where
  "ping_frame = [3, 0, 0, 0, 2, 0, 0, 0, 0x7B, 0x7D]"


definition empty_unknown_frame :: "byte list" where
  "empty_unknown_frame = [99, 0, 0, 0, 0, 0, 0, 0]"



section \<open>Strict executables\<close>

lemma execMatch_strict:
  assumes "ex_s exec" and "ex_n exec \<noteq> filename"
  shows "\<not> execMatch exec candidateKey filename fullPath cwdPath args"
  using assms by (simp add: execMatch_def Let_def)

text \<open>
  Claim C2. An executable entry with the strict flag never matches a process whose filename
  is not exactly its stored name, whatever the candidate key, the paths and the arguments
  are: none of the loose checks is reached. Hence a game all of whose entries are strict and
  differ from the filename does not match the process.
\<close>

theorem strict_exec_exact_only:
  "(ex_s exec \<and> ex_n exec \<noteq> filename \<longrightarrow>
      \<not> execMatch exec candidateKey filename fullPath cwdPath args) \<and>
   (game_e game = Some execs \<and> (\<forall>x \<in> set execs. ex_s x \<and> ex_n x \<noteq> filename) \<longrightarrow>
      \<not> checkGameMatch game candidateKey filename fullPath cwdPath args)"
  by (auto simp: checkGameMatch_def list_ex_iff execMatch_strict)

theorem strict_exec_exact_only_witness:
  "transformObject ''win32''
     [\<lparr> raw_id = ''123'', raw_game_name = ''Example Game'',
        raw_executables = Some [\<lparr> raw_name = ''>game.exe'', raw_os = ''win32'',
                                  raw_arguments = None \<rparr>] \<rparr>]
     = [\<lparr> game_i = ''123'', game_n = ''Example Game'',
          game_e = Some [\<lparr> ex_n = ''game.exe'', ex_a = None, ex_s = True \<rparr>] \<rparr>] \<and>
   \<not> execMatch \<lparr> ex_n = ''game.exe'', ex_a = None, ex_s = True \<rparr>
        ''game.exe'' ''game64.exe'' ''c:/games/game64.exe'' ''c:/games'' [] \<and>
   \<not> checkGameMatch \<lparr> game_i = ''123'', game_n = ''Example Game'',
          game_e = Some [\<lparr> ex_n = ''game.exe'', ex_a = None, ex_s = True \<rparr>] \<rparr>
        ''game.exe'' ''game64.exe'' ''c:/games/game64.exe'' ''c:/games'' [] \<and>
   checkGameMatch \<lparr> game_i = ''123'', game_n = ''Example Game'',
          game_e = Some [\<lparr> ex_n = ''game.exe'', ex_a = None, ex_s = True \<rparr>] \<rparr>
        ''game.exe'' ''game.exe'' ''c:/games/game.exe'' ''c:/games'' []"
  using strict_exec_exact_only
    [of "\<lparr> ex_n = ''game.exe'', ex_a = None, ex_s = True \<rparr>" "''game64.exe''"
        "''game.exe''" "''c:/games/game64.exe''" "''c:/games''" "[]"
        "\<lparr> game_i = ''123'', game_n = ''Example Game'',
           game_e = Some [\<lparr> ex_n = ''game.exe'', ex_a = None, ex_s = True \<rparr>] \<rparr>"
        "[\<lparr> ex_n = ''game.exe'', ex_a = None, ex_s = True \<rparr>]"]
  by (simp add: transformObject_def transformGame_def transformExec_def List.map_filter_def
      endsWith_def startsWith_def toLowerCase_def lower_char_def upper_chars_def lower_chars_def checkGameMatch_def
      execMatch_def Let_def)


section \<open>Candidate keys of a filename\<close>

lemma replace_first_absent: "\<not> str_includes s p \<Longrightarrow> replace_first p r s = s"
  by (induction s) auto

lemma startsWith_append_left:
  "length p \<le> length xs \<Longrightarrow> startsWith (xs @ ys) p = startsWith xs p"
  by (simp add: startsWith_def)

lemma replace_first_leftmost:
  assumes "p \<noteq> []" and "\<not> str_includes (pre @ butlast p) p"
  shows "replace_first p r (pre @ p @ post) = pre @ r @ post"
  using assms(2)
proof (induction pre)
  case Nil
  then show ?case using assms(1) by (cases p) (simp_all add: startsWith_def)
next
  case (Cons c pre)
  have len: "length p \<le> length ((c # pre) @ butlast p)" by simp
  have "(c # pre) @ p @ post = ((c # pre) @ butlast p) @ ([last p] @ post)"
    using assms(1) by simp
  then have "startsWith ((c # pre) @ p @ post) p = startsWith ((c # pre) @ butlast p) p"
    using startsWith_append_left [OF len] by metis
  moreover have "\<not> startsWith ((c # pre) @ butlast p) p"
    and "\<not> str_includes (pre @ butlast p) p"
    using Cons.prems by auto
  ultimately show ?case using Cons.IH by simp
qed

lemma set_candidates:
  "set (candidates f) = {f, noExt f, stripBitness f, stripBitness (noExt f)}"
  by (auto simp: candidates_def set_add_def)

lemma noExt_leftmost:
  "\<not> str_includes (pre @ ''.ex'') ''.exe'' \<Longrightarrow> noExt (pre @ ''.exe'' @ post) = pre @ post"
  using replace_first_leftmost [of "''.exe''" pre "[]" post] by (simp add: noExt_def)

text \<open>
  Claim C7, as the specification states it, fails: \<open>a.exe.bak\<close> does not end in \<open>.exe\<close>, yet
  its extension-less candidate is \<open>a.bak\<close>, not the filename itself, so the candidate set is
  not the one built from the removal of a trailing \<open>.exe\<close>.
\<close>

theorem candidates_trailing_exe_counterexample:
  "\<not> endsWith ''a.exe.bak'' ''.exe'' \<and>
   noExt ''a.exe.bak'' = ''a.bak'' \<and>
   candidates ''a.exe.bak'' = [''a.exe.bak'', ''a.bak''] \<and>
   set (candidates ''a.exe.bak'') \<noteq>
     {''a.exe.bak'', strip_trailing_exe ''a.exe.bak'', stripBitness ''a.exe.bak'',
      stripBitness (strip_trailing_exe ''a.exe.bak'')}"
  by (simp add: candidates_def set_add_def noExt_def stripBitness_def startsWith_def
      endsWith_def strip_trailing_exe_def)

text \<open>
  Claim C7, amended. The candidate keys of a filename \<open>f\<close> are exactly \<open>f\<close>, \<open>f\<close> with the
  leftmost occurrence of \<open>.exe\<close> removed (wherever it stands), the bitness-stripped \<open>f\<close>, and
  the bitness-stripped extension-less name. A filename without \<open>.exe\<close> is its own
  extension-less candidate; a filename \<open>pre.exe post\<close> whose first \<open>.exe\<close> is the one shown
  yields \<open>pre post\<close>. This is the removal of a trailing \<open>.exe\<close> whenever \<open>.exe\<close> is absent or
  occurs only at the end.
\<close>

theorem candidates_leftmost_exe:
  "set (candidates f) = {f, noExt f, stripBitness f, stripBitness (noExt f)} \<and>
   (\<not> str_includes f ''.exe'' \<longrightarrow> noExt f = f \<and> noExt f = strip_trailing_exe f) \<and>
   (f = pre @ ''.exe'' @ post \<and> \<not> str_includes (pre @ ''.ex'') ''.exe'' \<longrightarrow>
      noExt f = pre @ post) \<and>
   (f = pre @ ''.exe'' \<and> \<not> str_includes (pre @ ''.ex'') ''.exe'' \<longrightarrow>
      noExt f = strip_trailing_exe f)"
proof (intro conjI impI)
  show "set (candidates f) = {f, noExt f, stripBitness f, stripBitness (noExt f)}"
    by (rule set_candidates)
next
  assume a: "\<not> str_includes f ''.exe''"
  then show "noExt f = f" by (simp add: noExt_def replace_first_absent)
next
  assume a: "\<not> str_includes f ''.exe''"
  have "\<not> endsWith f ''.exe''"
  proof
    assume "endsWith f ''.exe''"
    then have "drop (length f - 4) f = ''.exe''"
      by (simp add: endsWith_def eval_nat_numeral)
    then have f: "take (length f - 4) f @ ''.exe'' @ [] = f"
      using append_take_drop_id [of "length f - 4" f] by simp
    have inc: "str_includes (xs @ ''.exe'' @ ys) ''.exe''" for xs ys
      by (induction xs) (simp_all add: startsWith_def)
    have "str_includes (take (length f - 4) f @ ''.exe'' @ []) ''.exe''"
      by (rule inc)
    then show False using a f by simp
  qed
  with a show "noExt f = strip_trailing_exe f"
    by (simp add: noExt_def replace_first_absent strip_trailing_exe_def)
next
  assume "f = pre @ ''.exe'' @ post \<and> \<not> str_includes (pre @ ''.ex'') ''.exe''"
  then show "noExt f = pre @ post" using noExt_leftmost by blast
next
  assume a: "f = pre @ ''.exe'' \<and> \<not> str_includes (pre @ ''.ex'') ''.exe''"
  then have "noExt f = pre" using noExt_leftmost [of pre "[]"] by simp
  moreover have "strip_trailing_exe f = pre"
    using a by (simp add: strip_trailing_exe_def endsWith_def)
  ultimately show "noExt f = strip_trailing_exe f" by simp
qed

theorem candidates_leftmost_exe_witness:
  "set (candidates ''game_64.exe'') = {''game_64.exe'', ''game_64'', ''game.exe'', ''game''} \<and>
   \<not> str_includes ''game_64.ex'' ''.exe'' \<and>
   noExt ''game_64.exe'' = strip_trailing_exe ''game_64.exe'' \<and>
   \<not> str_includes ''game'' ''.exe'' \<and> noExt ''game'' = ''game'' \<and>
   noExt ''a.exe.bak'' = ''a.bak''"
  using candidates_leftmost_exe [of "''game_64.exe''" "''game_64''" "[]"]
    candidates_leftmost_exe [of "''game''" "[]" "[]"]
    candidates_leftmost_exe [of "''a.exe.bak''" "''a''" "''.bak''"]
  by (simp add: startsWith_def stripBitness_def strip_trailing_exe_def endsWith_def)

section \<open>The scan: invariants\<close>











lemma handle_game_step:
  assumes "handle_game g (srv, calls) = (srv', calls')"
  shows "timestamps srv' =
           (if truthy_num (map_of (timestamps srv) (dg_id g)) then timestamps srv
            else AList.update (dg_id g) (dg_timestamp g) (timestamps srv))"
    and "names srv' = AList.update (dg_id g) (dg_name g) (names srv)"
    and "pids srv' = AList.update (dg_id g) (dg_pid g) (pids srv)"
    and "cache srv' = cache srv" and "detectionMap srv' = detectionMap srv"
    and "isScanning srv' = isScanning srv" and "lastScanTime srv' = lastScanTime srv"
    and "calls' = calls @ [(dg_id g, SetActivity (dg_id g) (dg_name g)
                              (map_of (timestamps srv') (dg_id g)) (dg_pid g))]"
  using assms by (auto simp: handle_game_def Let_def split: if_splits)


lemma handle_game_other:
  assumes "handle_game g (srv, calls) = (srv', calls')" and "gid \<noteq> dg_id g"
  shows "map_of (timestamps srv') gid = map_of (timestamps srv) gid"
    and "map_of (names srv') gid = map_of (names srv) gid"
    and "map_of (pids srv') gid = map_of (pids srv) gid"
  using handle_game_step [OF assms(1)] assms(2) by (auto simp: update_conv')




lemma handle_fold_other:
  assumes "fold handle_game gs (srv, calls) = (srv', calls')" and "gid \<notin> dg_id ` set gs"
  shows "map_of (timestamps srv') gid = map_of (timestamps srv) gid \<and>
         map_of (names srv') gid = map_of (names srv) gid \<and>
         map_of (pids srv') gid = map_of (pids srv) gid"
  using assms
proof (induction gs arbitrary: srv calls)
  case Nil
  then show ?case by simp
next
  case (Cons g gs)
  obtain srv1 calls1 where st: "handle_game g (srv, calls) = (srv1, calls1)"
    by (cases "handle_game g (srv, calls)")
  have ne: "gid \<noteq> dg_id g" and rest: "gid \<notin> dg_id ` set gs" using Cons.prems(2) by auto
  show ?case
    using Cons.IH [of srv1 calls1, OF _ rest] Cons.prems(1) st handle_game_other [OF st ne] by simp
qed


lemma handle_fold_frame:
  assumes "fold handle_game gs (srv, calls) = (srv', calls')"
  shows "cache srv' = cache srv \<and> detectionMap srv' = detectionMap srv \<and>
         isScanning srv' = isScanning srv \<and> lastScanTime srv' = lastScanTime srv \<and>
         fst ` set (timestamps srv') = fst ` set (timestamps srv) \<union> dg_id ` set gs \<and>
         (distinct (map fst (timestamps srv)) \<longrightarrow> distinct (map fst (timestamps srv')))"
  using assms
proof (induction gs arbitrary: srv calls)
  case Nil
  then show ?case by simp
next
  case (Cons g gs)
  obtain srv1 calls1 where st: "handle_game g (srv, calls) = (srv1, calls1)"
    by (cases "handle_game g (srv, calls)")
  have rest: "fold handle_game gs (srv1, calls1) = (srv', calls')" using Cons.prems(1) st by simp
  have k: "fst ` set (timestamps srv1) = insert (dg_id g) (fst ` set (timestamps srv))"
  proof (cases "truthy_num (map_of (timestamps srv) (dg_id g))")
    case True
    then have "dg_id g \<in> fst ` set (timestamps srv)"
      by (auto simp: truthy_num_def split: option.splits dest: map_of_SomeD intro: rev_image_eqI)
    then show ?thesis using handle_game_step(1) [OF st] True by auto
  next
    case False
    then show ?thesis using handle_game_step(1) [OF st] by (simp add: dom_update [simplified dom_map_of_conv_image_fst])
  qed
  have d: "distinct (map fst (timestamps srv)) \<longrightarrow> distinct (map fst (timestamps srv1))"
    using handle_game_step(1) [OF st] by (simp add: distinct_update)
  show ?case using Cons.IH [OF rest] handle_game_step(4-7) [OF st] k d by auto
qed

lemma cleanup_game_step:
  assumes "cleanup_game A k (srv, calls) = (srv', calls')"
  shows "k \<in> set A \<Longrightarrow> srv' = srv \<and> calls' = calls"
    and "k \<notin> set A \<Longrightarrow>
           timestamps srv' = AList.delete k (timestamps srv) \<and>
           names srv' = AList.delete k (names srv) \<and>
           pids srv' = AList.delete k (pids srv) \<and>
           calls' = calls @ [clear_call (pids srv) k]"
    and "cache srv' = cache srv" and "detectionMap srv' = detectionMap srv"
    and "isScanning srv' = isScanning srv" and "lastScanTime srv' = lastScanTime srv"
  using assms by (auto simp: cleanup_game_def Let_def clear_call_def split: if_splits)

lemma cleanup_fold_maps:
  assumes "fold (cleanup_game A) ks (srv, calls) = (srv', calls')"
  shows "map_of (timestamps srv') gid =
           (if gid \<in> set ks \<and> gid \<notin> set A then None else map_of (timestamps srv) gid) \<and>
         map_of (names srv') gid =
           (if gid \<in> set ks \<and> gid \<notin> set A then None else map_of (names srv) gid) \<and>
         map_of (pids srv') gid =
           (if gid \<in> set ks \<and> gid \<notin> set A then None else map_of (pids srv) gid)"
  using assms
proof (induction ks arbitrary: srv calls)
  case Nil
  then show ?case by simp
next
  case (Cons k ks)
  obtain srv1 calls1 where st: "cleanup_game A k (srv, calls) = (srv1, calls1)"
    by (cases "cleanup_game A k (srv, calls)")
  have rest: "fold (cleanup_game A) ks (srv1, calls1) = (srv', calls')"
    using Cons.prems st by simp
  show ?case
  proof (cases "k \<in> set A")
    case True
    then show ?thesis using Cons.IH [OF rest] cleanup_game_step(1) [OF st] by auto
  next
    case False
    then show ?thesis
      using Cons.IH [OF rest] cleanup_game_step(2) [OF st] by (auto simp: delete_conv')
  qed
qed

lemma cleanup_fold_calls:
  assumes "fold (cleanup_game A) ks (srv, calls) = (srv', calls')" and "distinct ks"
  shows "calls' = calls @ map (clear_call (pids srv)) (filter (\<lambda>k. k \<notin> set A) ks)"
  using assms
proof (induction ks arbitrary: srv calls)
  case Nil
  then show ?case by simp
next
  case (Cons k ks)
  obtain srv1 calls1 where st: "cleanup_game A k (srv, calls) = (srv1, calls1)"
    by (cases "cleanup_game A k (srv, calls)")
  have rest: "fold (cleanup_game A) ks (srv1, calls1) = (srv', calls')"
    using Cons.prems st by simp
  have d: "distinct ks" and k: "k \<notin> set ks" using Cons.prems(2) by auto
  have ih: "calls' = calls1 @ map (clear_call (pids srv1)) (filter (\<lambda>k. k \<notin> set A) ks)"
    using Cons.IH [OF rest d] .
  show ?case
  proof (cases "k \<in> set A")
    case True
    then show ?thesis using ih cleanup_game_step(1) [OF st] by simp
  next
    case False
    have "map (clear_call (pids srv1)) (filter (\<lambda>k. k \<notin> set A) ks) =
          map (clear_call (pids srv)) (filter (\<lambda>k. k \<notin> set A) ks)"
      using cleanup_game_step(2) [OF st False] k
      by (intro map_cong refl) (auto simp: clear_call_def delete_conv')
    then show ?thesis using ih cleanup_game_step(2) [OF st False] False by simp
  qed
qed


lemma set_object_keys: "set (object_keys ks) = set ks"
  by (auto simp: object_keys_def)

lemma distinct_object_keys: "distinct ks \<Longrightarrow> distinct (object_keys ks)"
  by (auto simp: object_keys_def)

lemma filter_addressed_absent:
  "gid \<notin> set ks \<Longrightarrow> filter (\<lambda>c. fst c = gid) (map (clear_call ps) ks) = []"
  by (induction ks) (auto simp: clear_call_def)

lemma filter_addressed_once:
  "distinct ks \<Longrightarrow> gid \<in> set ks \<Longrightarrow>
   filter (\<lambda>c. fst c = gid) (map (clear_call ps) ks) = [clear_call ps gid]"
  by (induction ks) (auto simp: filter_addressed_absent, auto simp: clear_call_def)

lemma handle_fold_addressed:
  assumes "fold handle_game gs (srv, calls) = (srv', calls')" and "gid \<notin> dg_id ` set gs"
  shows "filter (\<lambda>c. fst c = gid) calls' = filter (\<lambda>c. fst c = gid) calls"
  using assms
proof (induction gs arbitrary: srv calls)
  case Nil
  then show ?case by simp
next
  case (Cons g gs)
  obtain srv1 calls1 where st: "handle_game g (srv, calls) = (srv1, calls1)"
    by (cases "handle_game g (srv, calls)")
  have ne: "gid \<noteq> dg_id g" and rest: "gid \<notin> dg_id ` set gs" using Cons.prems(2) by auto
  have "filter (\<lambda>c. fst c = gid) calls1 = filter (\<lambda>c. fst c = gid) calls"
    using handle_game_step(8) [OF st] ne by simp
  then show ?case using Cons.IH [of srv1 calls1, OF _ rest] Cons.prems(1) st by simp
qed

lemma handleScanResults_lost:
  assumes h: "handleScanResults gs srv = (srv', calls')"
    and dist: "distinct (map fst (timestamps srv))"
    and act: "gid \<in> fst ` set (timestamps srv)" and lost: "gid \<notin> dg_id ` set gs"
  shows "map_of (timestamps srv') gid = None \<and> map_of (names srv') gid = None \<and>
         map_of (pids srv') gid = None \<and>
         filter (\<lambda>c. fst c = gid) calls' = [(gid, ClearActivity (map_of (pids srv) gid))]"
proof -
  obtain srvH callsH where H: "fold handle_game gs (srv, []) = (srvH, callsH)"
    by (cases "fold handle_game gs (srv, [])")
  let ?ks = "object_keys (map fst (timestamps srvH))"
  have C: "fold (cleanup_game (map dg_id gs)) ?ks (srvH, callsH) = (srv', calls')"
    using h H by (simp add: handleScanResults_def cleanupLostGames_def)
  have frame: "fst ` set (timestamps srvH) = fst ` set (timestamps srv) \<union> dg_id ` set gs"
    and dH: "distinct (map fst (timestamps srvH))"
    using handle_fold_frame [OF H] dist by simp_all
  have in_ks: "gid \<in> set ?ks" using frame act by (simp add: set_object_keys)
  have dks: "distinct ?ks" using dH by (rule distinct_object_keys)
  have notA: "gid \<notin> set (map dg_id gs)" using lost by simp
  have maps: "map_of (timestamps srv') gid = None \<and> map_of (names srv') gid = None \<and>
         map_of (pids srv') gid = None"
    using cleanup_fold_maps [OF C, of gid] in_ks notA by simp
  have pid: "map_of (pids srvH) gid = map_of (pids srv) gid"
    using handle_fold_other [OF H lost] by simp
  have "calls' = callsH @ map (clear_call (pids srvH)) (filter (\<lambda>k. k \<notin> set (map dg_id gs)) ?ks)"
    using cleanup_fold_calls [OF C dks] .
  moreover have "filter (\<lambda>c. fst c = gid) callsH = []"
    using handle_fold_addressed [OF H lost] by simp
  moreover have "filter (\<lambda>c. fst c = gid)
        (map (clear_call (pids srvH)) (filter (\<lambda>k. k \<notin> set (map dg_id gs)) ?ks)) =
        [clear_call (pids srvH) gid]"
    using dks in_ks notA by (intro filter_addressed_once) auto
  ultimately have "filter (\<lambda>c. fst c = gid) calls' = [(gid, ClearActivity (map_of (pids srv) gid))]"
    using pid by (simp add: clear_call_def)
  then show ?thesis using maps by simp
qed


lemma cache_gc_fields:
  "timestamps (cache_gc ks srv) = timestamps srv" "names (cache_gc ks srv) = names srv"
  "pids (cache_gc ks srv) = pids srv" "isScanning (cache_gc ks srv) = isScanning srv"
  by (simp_all add: cache_gc_def Let_def)

lemma scan_loop_flags:
  "scan_loop time ps (srv\<lparr> isScanning := b, lastScanTime := t \<rparr>) tick = scan_loop time ps srv tick"
  by (simp add: scan_loop_def)

lemma scan_running:
  assumes "\<not> isScanning srv"
  obtains srv1 calls where
    "handleScanResults (map snd (l_detected (scan_loop time ps srv tick)))
       (srv\<lparr> isScanning := True, lastScanTime := time tick,
              cache := l_cache (scan_loop time ps srv tick) \<rparr>) = (srv1, calls)"
    and "out_server (scan time (Some ps) srv tick) =
           (cache_gc (l_keys (scan_loop time ps srv tick)) srv1)\<lparr> isScanning := False \<rparr>"
    and "out_calls (scan time (Some ps) srv tick) = calls"
    and "out_detected (scan time (Some ps) srv tick) = map snd (l_detected (scan_loop time ps srv tick))"
    and "out_tick (scan time (Some ps) srv tick) = l_tick (scan_loop time ps srv tick)"
proof -
  obtain srv1 calls where h:
    "handleScanResults (map snd (l_detected (scan_loop time ps srv tick)))
       (srv\<lparr> isScanning := True, lastScanTime := time tick,
              cache := l_cache (scan_loop time ps srv tick) \<rparr>) = (srv1, calls)"
    by (cases "handleScanResults (map snd (l_detected (scan_loop time ps srv tick)))
       (srv\<lparr> isScanning := True, lastScanTime := time tick,
              cache := l_cache (scan_loop time ps srv tick) \<rparr>)")
  show ?thesis
    using assms h by (intro that [of srv1 calls]) (simp_all add: scan_def scan_loop_flags Let_def)
qed








section \<open>Timestamps across scans\<close>




section \<open>Lost games\<close>

text \<open>
  Claim C6. If a game id has an entry in \<open>timestamps\<close> before a scan of an idle engine and no
  detected game of that scan has this id, then after the scan the id has no entry in
  \<open>timestamps\<close>, \<open>names\<close> and \<open>pids\<close>, and exactly one handler call of the scan is
  addressed to the socket id equal to the game id: a clearing message (\<open>activity: null\<close>) that
  carries the pid stored for the game before the scan.
\<close>

theorem lost_game_cleared:
  assumes ns: "\<not> isScanning srv" and dts: "distinct (map fst (timestamps srv))"
    and act: "gid \<in> fst ` set (timestamps srv)"
    and lost: "gid \<notin> dg_id ` set (out_detected (scan time (Some ps) srv tick))"
  shows "map_of (timestamps (out_server (scan time (Some ps) srv tick))) gid = None \<and>
         map_of (names (out_server (scan time (Some ps) srv tick))) gid = None \<and>
         map_of (pids (out_server (scan time (Some ps) srv tick))) gid = None \<and>
         filter (\<lambda>c. fst c = gid) (out_calls (scan time (Some ps) srv tick)) =
           [(gid, ClearActivity (map_of (pids srv) gid))]"
proof -
  let ?o = "scan time (Some ps) srv tick"
  from scan_running [OF ns, of time ps tick] obtain srv1 calls where
    h: "handleScanResults (map snd (l_detected (scan_loop time ps srv tick)))
       (srv\<lparr> isScanning := True, lastScanTime := time tick,
              cache := l_cache (scan_loop time ps srv tick) \<rparr>) = (srv1, calls)"
    and s: "out_server ?o =
           (cache_gc (l_keys (scan_loop time ps srv tick)) srv1)\<lparr> isScanning := False \<rparr>"
    and c: "out_calls ?o = calls"
    and d: "out_detected ?o = map snd (l_detected (scan_loop time ps srv tick))"
    by metis
  have "map_of (timestamps srv1) gid = None \<and> map_of (names srv1) gid = None \<and>
         map_of (pids srv1) gid = None \<and>
         filter (\<lambda>c. fst c = gid) calls = [(gid, ClearActivity (map_of (pids srv) gid))]"
    using handleScanResults_lost [OF h [folded d], of gid] dts act lost by simp
  then show ?thesis using s c by (simp add: cache_gc_fields)
qed

theorem lost_game_cleared_witness:
  "map_of (timestamps (out_server detect_scan)) ''123'' = Some 1001 \<and>
   out_detected lost_scan = [] \<and>
   map_of (timestamps (out_server lost_scan)) ''123'' = None \<and>
   map_of (names (out_server lost_scan)) ''123'' = None \<and>
   map_of (pids (out_server lost_scan)) ''123'' = None \<and>
   filter (\<lambda>c. fst c = ''123'') (out_calls lost_scan) = [(''123'', ClearActivity (Some 42))]"
proof -
  have h1: "\<not> isScanning (out_server detect_scan)" by code_simp
  have h2: "distinct (map fst (timestamps (out_server detect_scan)))" by code_simp
  have h3: "''123'' \<in> fst ` set (timestamps (out_server detect_scan))" by code_simp
  have h4: "''123'' \<notin> dg_id ` set (out_detected
      (scan clock (Some []) (out_server detect_scan) (out_tick detect_scan)))" by code_simp
  have p: "map_of (pids (out_server detect_scan)) ''123'' = Some 42" by code_simp
  have t: "map_of (timestamps (out_server detect_scan)) ''123'' = Some 1001" by code_simp
  have d: "out_detected lost_scan = []" by code_simp
  show ?thesis
    using lost_game_cleared [OF h1 h2 h3 h4] p t d by (simp add: lost_scan_def)
qed

section \<open>Cache maintenance\<close>

declare index_string.simps [simp del]

lemma digit_char_not_nul: "k < 10 \<Longrightarrow> digit_char k \<noteq> CHR 0x00"
proof -
  assume "k < 10"
  then have "k \<in> {0, 1, 2, 3, 4, 5, 6, 7, 8, 9}" by auto
  then show ?thesis by (auto simp: digit_char_def)
qed

lemma index_string_no_nul: "CHR 0x00 \<notin> set (index_string k)"
proof (induction k rule: index_string.induct)
  case (1 k)
  show ?case
  proof (cases "k < 10")
    case True
    then show ?thesis using digit_char_not_nul [of k] by (subst index_string.simps) auto
  next
    case False
    have "k mod 10 < 10" by simp
    then have "digit_char (k mod 10) \<noteq> CHR 0x00" by (rule digit_char_not_nul)
    then show ?thesis using 1 False by (subst index_string.simps) auto
  qed
qed

lemma delete_indices_absent:
  "\<forall>k \<in> fst ` set al. CHR 0x00 \<in> set k \<Longrightarrow>
   fold (\<lambda>i c. AList.delete (index_string i) c) is al = al"
proof (induction "is")
  case Nil
  then show ?case by simp
next
  case (Cons i "is")
  have "index_string i \<notin> fst ` set al"
    using Cons.prems index_string_no_nul [of i] by blast
  then show ?case using Cons by simp
qed

lemma cache_gc_noop:
  assumes "\<forall>k \<in> fst ` set (cache srv). CHR 0x00 \<in> set k"
  shows "cache_gc fetchedCacheKeys srv = srv"
  using delete_indices_absent [OF assms] by (simp add: cache_gc_def Let_def)

text \<open>
  Claim C1 at a concrete input. The first scan of the scenario caches the signature of the
  game's process. The next scan sees no process at all, so the cache (one signature) is
  larger than twice the number of signatures seen (none) and the maintenance block runs; the
  cache still holds the signature, which was not observed in that scan.
\<close>

theorem cache_not_swept:
  "map fst (cache (out_server detect_scan)) = [cacheKeyOf ''c:/games/game.exe'' [] ''c:/games''] \<and>
   length (cache (out_server detect_scan)) > 0 * 2 \<and>
   out_detected lost_scan = [] \<and>
   map fst (cache (out_server lost_scan)) = [cacheKeyOf ''c:/games/game.exe'' [] ''c:/games'']"
  by code_simp

section \<open>Frame delivery\<close>

declare processSocketReadable.simps [simp del]

lemma next_frame_shorter: "next_frame buf = Frame t body rest \<Longrightarrow> length rest < length buf"
  by (auto simp: next_frame_def sock_read_def Let_def split: if_splits option.splits prod.splits)

lemma readInt32LE_take:
  "off + 4 \<le> k \<Longrightarrow> k \<le> length buf \<Longrightarrow> readInt32LE (take k buf) off = readInt32LE buf off"
  by (simp add: readInt32LE_def)




lemma next_frame_empty_payload:
  assumes v: "valid_frame fr" and z: "frame_size fr = 0"
  shows "next_frame fr = Wait"
proof -
  have sz: "readInt32LE (take 8 fr) 4 = 0"
    using v z by (simp add: frame_size_def valid_frame_def readInt32LE_take)
  show ?thesis using v z sz by (simp add: next_frame_def sock_read_def Let_def valid_frame_def MAX_IPC_PAYLOAD_def)
qed












section \<open>Protocol violations\<close>

lemma next_frame_oversize:
  assumes "8 \<le> length buf" and "frame_size buf < 0 \<or> frame_size buf > MAX_IPC_PAYLOAD"
  shows "next_frame buf = Destroy (drop 8 buf)"
proof -
  have "readInt32LE (take 8 buf) 4 = frame_size buf"
    using assms(1) by (simp add: frame_size_def readInt32LE_take)
  then show ?thesis using assms by (auto simp: next_frame_def sock_read_def Let_def)
qed

lemma oversize_destroys:
  assumes "8 \<le> length buf" and "frame_size buf < 0 \<or> frame_size buf > MAX_IPC_PAYLOAD"
    and "rbuf s = []" and "\<not> destroyed s"
  shows "on_readable parse stringify buf s = s\<lparr> rbuf := drop 8 buf, destroyed := True \<rparr>"
  using assms(3,4) next_frame_oversize [OF assms(1,2)]
  by (simp add: on_readable_def processSocketReadable.simps)

lemma next_frame_unknown_type:
  assumes "8 \<le> length buf" and "frame_type buf \<notin> set Types_values"
    and "0 < frame_size buf" and "frame_size buf \<le> MAX_IPC_PAYLOAD"
    and "8 + frame_size buf \<le> int (length buf)"
  shows "next_frame buf = Destroy (drop (8 + nat (frame_size buf)) buf)"
proof -
  have "readInt32LE (take 8 buf) 4 = frame_size buf" "readInt32LE (take 8 buf) 0 = frame_type buf"
    using assms(1) by (simp_all add: frame_size_def frame_type_def readInt32LE_take)
  moreover have "nat (frame_size buf) \<le> length buf - 8" using assms(1,3,5) by linarith
  ultimately show ?thesis
    using assms by (auto simp: next_frame_def sock_read_def Let_def add.commute)
qed

lemma unknown_type_destroys:
  assumes "8 \<le> length buf" and "frame_type buf \<notin> set Types_values"
    and "0 < frame_size buf" and "frame_size buf \<le> MAX_IPC_PAYLOAD"
    and "8 + frame_size buf \<le> int (length buf)"
    and "rbuf s = []" and "\<not> destroyed s"
  shows "on_readable parse stringify buf s =
           s\<lparr> rbuf := drop (8 + nat (frame_size buf)) buf, destroyed := True \<rparr>"
  using assms(6,7) next_frame_unknown_type [OF assms(1-5)]
  by (simp add: on_readable_def processSocketReadable.simps)

text \<open>
  Claim C8 at a concrete input. A frame of the unknown type 99 that declares an empty payload
  does not get the socket destroyed: \<open>read(0)\<close> returns \<open>null\<close>, the header is put back and
  the reader returns. The header stays at the front of the buffer, so a valid frame sent
  after it is never read either.
\<close>

theorem unknown_type_empty_payload_stalls:
  "frame_type empty_unknown_frame = 99 \<and> frame_type empty_unknown_frame \<notin> set Types_values \<and>
   frame_size empty_unknown_frame = 0 \<and>
   on_readable toy_parse toy_stringify empty_unknown_frame new_socket =
     new_socket\<lparr> rbuf := empty_unknown_frame \<rparr> \<and>
   \<not> destroyed (on_readable toy_parse toy_stringify empty_unknown_frame new_socket) \<and>
   on_readable toy_parse toy_stringify ping_frame
     (on_readable toy_parse toy_stringify empty_unknown_frame new_socket) =
     new_socket\<lparr> rbuf := empty_unknown_frame @ ping_frame \<rparr>"
  by code_simp

section \<open>The handshake\<close>

lemma parseInt10_leading_one:
  assumes "rest = [] \<or> \<not> is_digit (hd rest)"
  shows "parseInt10 (''1'' @ rest) = Some 1"
proof -
  have "takeWhile is_digit rest = []" using assms by (cases rest) auto
  then show ?thesis
    by (simp add: parseInt10_def js_whitespace_def is_digit_def dec_value_def digit_value_def)
qed




section \<open>The message gate\<close>

text \<open>
  Claim C9, as stated, fails for the payload \<open>null\<close>: it has no truthy \<open>cmd\<close>, but
  \<open>onMessage\<close> throws on reading \<open>msg.args\<close> instead of logging and returning.
\<close>

theorem null_payload_throws:
  "\<not> truthy (field JNull ''cmd'') \<and> IPC_onMessage JNull = Inl TypeError \<and>
   IPC_onMessage JNull \<noteq> Inr ([''Invaild payload!''], [])"
  by (simp add: IPC_onMessage_def)

text \<open>
  Claim C9, amended. On the native transport a decoded payload other than \<open>null\<close> that lacks
  a truthy \<open>cmd\<close> or a truthy \<open>args\<close> is logged and dropped; a payload with both is handed to
  the message handler; and for every payload the handler is called only with that payload
  and only when both fields are truthy. The WebSocket \<open>onMessage\<close> calls the handler with
  every payload.
\<close>

theorem message_gate:
  "(msg \<noteq> JNull \<and> (\<not> truthy (field msg ''cmd'') \<or> \<not> truthy (field msg ''args'')) \<longrightarrow>
      IPC_onMessage msg = Inr ([''Invaild payload!''], [])) \<and>
   (truthy (field msg ''cmd'') \<and> truthy (field msg ''args'') \<longrightarrow>
      IPC_onMessage msg = Inr ([], [MessageCall msg])) \<and>
   (MessageCall m \<in> set (upcalls_of (IPC_onMessage msg)) \<longrightarrow>
      m = msg \<and> truthy (field msg ''cmd'') \<and> truthy (field msg ''args'')) \<and>
   WS_onMessage msg = [MessageCall msg]"
  by (cases msg) (auto simp: IPC_onMessage_def upcalls_of_def WS_onMessage_def)

theorem message_gate_witness:
  "IPC_onMessage (JObj [(''cmd'', JStr ''SET_ACTIVITY'')]) = Inr ([''Invaild payload!''], []) \<and>
   IPC_onMessage (JObj [(''cmd'', JStr ''SET_ACTIVITY''), (''args'', JObj [])]) =
     Inr ([], [MessageCall (JObj [(''cmd'', JStr ''SET_ACTIVITY''), (''args'', JObj [])])]) \<and>
   upcalls_of (IPC_onMessage (JObj [(''cmd'', JStr ''SET_ACTIVITY''), (''args'', JObj [])])) =
     [MessageCall (JObj [(''cmd'', JStr ''SET_ACTIVITY''), (''args'', JObj [])])] \<and>
   WS_onMessage (JObj [(''cmd'', JStr ''SET_ACTIVITY'')]) =
     [MessageCall (JObj [(''cmd'', JStr ''SET_ACTIVITY'')])]"
  using message_gate [of "JObj [(''cmd'', JStr ''SET_ACTIVITY'')]" "JNull"]
    message_gate [of "JObj [(''cmd'', JStr ''SET_ACTIVITY''), (''args'', JObj [])]"
       "JObj [(''cmd'', JStr ''SET_ACTIVITY''), (''args'', JObj [])]"]
  by (simp add: upcalls_of_def)

section \<open>The version parameter\<close>

text \<open>
  Claim C10. A WebSocket connection without a \<open>v\<close> parameter, or with one whose \<open>parseInt\<close>
  is 1, is accepted when the encoding is absent or \<open>json\<close>; a native handshake without
  \<open>v\<close>, or with one whose \<open>parseInt\<close> is 1, is accepted when \<open>client_id\<close> is not empty. Any
  string that starts with \<open>1\<close> followed by no further digit parses to 1, as \<open>"1.5"\<close> does.
\<close>

theorem version_defaults:
  "((ws_v wp = None \<or> (\<exists>t. ws_v wp = Some (QStr t) \<and> parseInt10 t = Some 1)) \<and>
    (ws_encoding wp = None \<or> ws_encoding wp = Some (QStr ''json'')) \<longrightarrow>
      WS_onConnection wp socket =
        (socket\<lparr> ws_clientId := Some (case ws_client_id wp of None \<Rightarrow> QStr '''' | Some q \<Rightarrow> q),
                  ws_enc := Some (QStr ''json''), ws_message_listener := True \<rparr>,
         [ConnectionCall (case ws_client_id wp of None \<Rightarrow> QStr '''' | Some q \<Rightarrow> q)])) \<and>
   ((hs_v hp = None \<or> (\<exists>t. hs_v hp = Some t \<and> parseInt10 t = Some 1)) \<and>
    hs_client_id hp = Some c \<and> c \<noteq> '''' \<and> \<not> handshook s \<longrightarrow>
      onHandshake stringify hp s =
        (s\<lparr> handshook := True, request_listener := True, clientId := Some c \<rparr>,
         [ConnectionCall c])) \<and>
   (rest = [] \<or> \<not> is_digit (hd rest) \<longrightarrow> parseInt10 (''1'' @ rest) = Some 1) \<and>
   parseInt10 ''1'' = Some 1 \<and> parseInt10 ''1.5'' = Some 1"
proof (intro conjI impI)
  show one: "parseInt10 ''1'' = Some 1" and "parseInt10 ''1.5'' = Some 1"
    by (simp_all add: parseInt10_def js_whitespace_def is_digit_def dec_value_def digit_value_def)
  show "parseInt10 (''1'' @ rest) = Some 1" if "rest = [] \<or> \<not> is_digit (hd rest)"
    using that by (rule parseInt10_leading_one)
  show "WS_onConnection wp socket =
       (socket\<lparr> ws_clientId := Some (case ws_client_id wp of None \<Rightarrow> QStr '''' | Some q \<Rightarrow> q),
                 ws_enc := Some (QStr ''json''), ws_message_listener := True \<rparr>,
        [ConnectionCall (case ws_client_id wp of None \<Rightarrow> QStr '''' | Some q \<Rightarrow> q)])"
    if "(ws_v wp = None \<or> (\<exists>t. ws_v wp = Some (QStr t) \<and> parseInt10 t = Some 1)) \<and>
        (ws_encoding wp = None \<or> ws_encoding wp = Some (QStr ''json''))"
  proof -
    have "parseInt10 (case ws_v wp of None \<Rightarrow> ''1'' | Some q \<Rightarrow> qstring q) = Some 1"
      using that one by auto
    moreover have "(case ws_encoding wp of None \<Rightarrow> QStr ''json'' | Some q \<Rightarrow> q) = QStr ''json''"
      using that by auto
    ultimately show ?thesis by (simp add: WS_onConnection_def Let_def)
  qed
  show "onHandshake stringify hp s =
       (s\<lparr> handshook := True, request_listener := True, clientId := Some c \<rparr>,
        [ConnectionCall c])"
    if "(hs_v hp = None \<or> (\<exists>t. hs_v hp = Some t \<and> parseInt10 t = Some 1)) \<and>
        hs_client_id hp = Some c \<and> c \<noteq> '''' \<and> \<not> handshook s"
  proof -
    have "parseInt10 (case hs_v hp of None \<Rightarrow> ''1'' | Some v \<Rightarrow> v) = Some 1"
      using that one by auto
    then show ?thesis using that by (simp add: onHandshake_def Let_def)
  qed
qed

theorem version_defaults_witness:
  "WS_onConnection \<lparr> ws_v = None, ws_encoding = None, ws_client_id = Some (QStr ''abc'') \<rparr>
     new_websocket =
     (new_websocket\<lparr> ws_clientId := Some (QStr ''abc''), ws_enc := Some (QStr ''json''),
                      ws_message_listener := True \<rparr>, [ConnectionCall (QStr ''abc'')]) \<and>
   WS_onConnection \<lparr> ws_v = Some (QStr ''1.5''), ws_encoding = Some (QStr ''json''),
                     ws_client_id = None \<rparr> new_websocket =
     (new_websocket\<lparr> ws_clientId := Some (QStr ''''), ws_enc := Some (QStr ''json''),
                      ws_message_listener := True \<rparr>, [ConnectionCall (QStr '''')]) \<and>
   onHandshake toy_stringify \<lparr> hs_v = None, hs_client_id = Some ''abc'' \<rparr> new_socket =
     (new_socket\<lparr> handshook := True, request_listener := True, clientId := Some ''abc'' \<rparr>,
      [ConnectionCall ''abc'']) \<and>
   onHandshake toy_stringify \<lparr> hs_v = Some ''1.5'', hs_client_id = Some ''abc'' \<rparr> new_socket =
     (new_socket\<lparr> handshook := True, request_listener := True, clientId := Some ''abc'' \<rparr>,
      [ConnectionCall ''abc'']) \<and>
   parseInt10 ''1.5'' = Some 1 \<and> parseInt10 ''1 '' = Some 1"
proof -
  have h: "\<not> handshook new_socket" by (simp add: new_socket_def)
  have d: "\<not> is_digit (hd '' '')" by (simp add: is_digit_def)
  note a = version_defaults [where wp = "\<lparr> ws_v = None, ws_encoding = None,
          ws_client_id = Some (QStr ''abc'') \<rparr>" and socket = new_websocket
        and hp = "\<lparr> hs_v = None, hs_client_id = Some ''abc'' \<rparr>" and c = "''abc''"
        and s = new_socket and stringify = toy_stringify and rest = "'' ''"]
  note b = version_defaults [where wp = "\<lparr> ws_v = Some (QStr ''1.5''),
          ws_encoding = Some (QStr ''json''), ws_client_id = None \<rparr>" and socket = new_websocket
        and hp = "\<lparr> hs_v = Some ''1.5'', hs_client_id = Some ''abc'' \<rparr>" and c = "''abc''"
        and s = new_socket and stringify = toy_stringify and rest = "'' ''"]
  show ?thesis using a b h d by simp
qed

end
